theory Spec2Isabelle
  imports Complex_Main
begin

section \<open>Data model (models.py)\<close>

text \<open>
  The class \<open>Role\<close> holds three string constants; the column \<open>User.role\<close> is a
  string of at most 20 characters, compared with these constants by the decorators.
\<close>

definition ADMIN :: string where
  "ADMIN = ''admin''"

definition TEACHER :: string where
  "TEACHER = ''teacher''"

definition STUDENT :: string where
  "STUDENT = ''student''"

text \<open>
  The logged-in user as the handlers read it: \<open>current_user.id\<close> and
  \<open>current_user.role\<close>. Primary keys are the non-negative integers that the
  \<open>int\<close> URL converter accepts.
\<close>

record user =
  u_id :: nat
  username :: string
  role :: string

text \<open>
  A row of \<open>books\<close>. The copy counts are integer columns; nothing in the schema bounds
  them from below. Nullable columns are options.
\<close>

record book =
  b_id :: nat
  isbn :: "string option"
  title :: "string option"
  author :: string
  publisher :: string
  year :: int
  rating :: int
  copies_total :: int
  copies_available :: int
  category :: string
  description :: "string option"
  cover_url :: "string option"

text \<open>
  A row of \<open>borrow_records\<close>. The three date columns have type \<open>Date\<close>: a value is a
  calendar day, modelled as its day number. The student handlers write
  \<open>date.today()\<close>, the teacher handlers write \<open>datetime.utcnow()\<close> into the same
  \<open>Date\<close> columns, which keep the day. The column \<open>fine\<close> is a float with default
  \<open>0.0\<close>; no insert of the program passes a value for it.
\<close>

record borrow_record =
  r_id :: nat
  user_id :: nat
  book_id :: nat
  borrow_date :: "int option"
  due_date :: "int option"
  return_date :: "int option"
  returned :: bool
  fine :: real

text \<open>
  The database: the two tables with their auto-increment counters. Rows are kept in
  insertion order.
\<close>

record db =
  books :: "book list"
  borrow_records :: "borrow_record list"
  next_book_id :: nat
  next_record_id :: nat

text \<open>The database right after \<open>db.create_all()\<close> (init_db.py).\<close>

definition empty_db :: db where
  "empty_db = \<lparr>books = [], borrow_records = [], next_book_id = 1, next_record_id = 1\<rparr>"

section \<open>Queries and row updates\<close>

text \<open>\<open>Book.query.get(book_id)\<close>: the row with that primary key, if any.\<close>

definition get_book :: "db \<Rightarrow> nat \<Rightarrow> book option" where
  "get_book s k = find (\<lambda>b. b_id b = k) (books s)"

text \<open>\<open>BorrowRecord.query.get(record_id)\<close>.\<close>

definition get_record :: "db \<Rightarrow> nat \<Rightarrow> borrow_record option" where
  "get_record s k = find (\<lambda>r. r_id r = k) (borrow_records s)"

text \<open>
  \<open>BorrowRecord.query.filter_by(user_id=..., book_id=..., returned=False).first()\<close>.
\<close>

definition existing_loan :: "db \<Rightarrow> nat \<Rightarrow> nat \<Rightarrow> borrow_record option" where
  "existing_loan s u k =
     find (\<lambda>r. user_id r = u \<and> book_id r = k \<and> \<not> returned r) (borrow_records s)"

text \<open>\<open>BorrowRecord.query.filter_by(user_id=current_user.id).all()\<close>.\<close>

definition records_of :: "db \<Rightarrow> nat \<Rightarrow> borrow_record list" where
  "records_of s u = filter (\<lambda>r. user_id r = u) (borrow_records s)"

text \<open>
  \<open>BorrowRecord.query.filter_by(book_id=..., returned=False).count()\<close>: the number of
  active loans on a book.
\<close>

definition active_loans :: "db \<Rightarrow> nat \<Rightarrow> nat" where
  "active_loans s k =
     length (filter (\<lambda>r. book_id r = k \<and> \<not> returned r) (borrow_records s))"

text \<open>
  What \<open>db.session.commit()\<close> writes for a changed object: the row with the object's
  primary key is replaced.
\<close>

definition update_book :: "book \<Rightarrow> book list \<Rightarrow> book list" where
  "update_book b' bs = map (\<lambda>b. if b_id b = b_id b' then b' else b) bs"

definition update_record :: "borrow_record \<Rightarrow> borrow_record list \<Rightarrow> borrow_record list" where
  "update_record r' rs = map (\<lambda>r. if r_id r = r_id r' then r' else r) rs"

section \<open>Outcomes of a request\<close>

text \<open>
  Every early return of a handler is an outcome. The handlers report them as flashed
  messages and redirects; the names follow the specification's error kinds:
  \<^item> \<open>LoginRedirect\<close>: \<open>login_required\<close> found no authenticated user;
  \<^item> \<open>AccessDenied\<close>: the role decorator refused the user;
  \<^item> \<open>NotFound\<close>: \<open>get_or_404\<close> aborted with 404;
  \<^item> \<open>OutOfStock\<close>: "Book not available for borrowing!";
  \<^item> \<open>AlreadyBorrowed\<close>: "You already borrowed this book!";
  \<^item> \<open>Unauthorized\<close>: "Unauthorized return attempt!";
  \<^item> \<open>AlreadyReturned\<close>: "Book already returned!";
  \<^item> \<open>BookInUse\<close>: "Cannot delete book. It is currently borrowed.";
  \<^item> \<open>BadRequest\<close>: a form key is missing (400);
  \<^item> \<open>InputError\<close>: "Error adding book. Please check inputs.";
  \<^item> \<open>ServerError\<close>: an exception no handler catches (500); the session is discarded
    and nothing is written;
  \<^item> \<open>Success\<close>: the handler committed.
\<close>

datatype outcome =
    LoginRedirect
  | AccessDenied
  | NotFound
  | OutOfStock
  | AlreadyBorrowed
  | Unauthorized
  | AlreadyReturned
  | BookInUse
  | BadRequest
  | InputError
  | ServerError
  | Success

section \<open>Decorators\<close>

text \<open>
  \<open>login_required\<close> (flask-login) runs the view only for an authenticated user; the
  anonymous user is \<open>None\<close>.
\<close>

definition login_required ::
  "user option \<Rightarrow> (user \<Rightarrow> db \<Rightarrow> outcome \<times> db) \<Rightarrow> db \<Rightarrow> outcome \<times> db" where
  "login_required cu fn s = (case cu of None \<Rightarrow> (LoginRedirect, s) | Some u \<Rightarrow> fn u s)"

text \<open>
  \<open>student_required\<close>, \<open>teacher_required\<close>, \<open>admin_required\<close>: the wrapped view runs
  only when \<open>current_user.role\<close> is the decorator's role.
\<close>

definition student_required :: "user \<Rightarrow> (db \<Rightarrow> outcome \<times> db) \<Rightarrow> db \<Rightarrow> outcome \<times> db" where
  "student_required u fn s = (if role u \<noteq> STUDENT then (AccessDenied, s) else fn s)"

definition teacher_required :: "user \<Rightarrow> (db \<Rightarrow> outcome \<times> db) \<Rightarrow> db \<Rightarrow> outcome \<times> db" where
  "teacher_required u fn s = (if role u \<noteq> TEACHER then (AccessDenied, s) else fn s)"

definition admin_required :: "user \<Rightarrow> (db \<Rightarrow> outcome \<times> db) \<Rightarrow> db \<Rightarrow> outcome \<times> db" where
  "admin_required u fn s = (if role u \<noteq> ADMIN then (AccessDenied, s) else fn s)"

section \<open>Student handlers (blueprints/student.py)\<close>

text \<open>
  \<open>borrow_book(book_id)\<close>, with \<open>today = date.today()\<close> passed in. The stock check
  comes first, the check for an unreturned loan of the same user second.
\<close>

definition student_borrow_book :: "user \<Rightarrow> nat \<Rightarrow> int \<Rightarrow> db \<Rightarrow> outcome \<times> db" where
  "student_borrow_book cu bk today s =
     (case get_book s bk of
        None \<Rightarrow> (NotFound, s)
      | Some b \<Rightarrow>
          if copies_available b \<le> 0 then (OutOfStock, s)
          else (case existing_loan s (u_id cu) bk of
                  Some existing \<Rightarrow> (AlreadyBorrowed, s)
                | None \<Rightarrow>
                    let borrow = \<lparr>r_id = next_record_id s, user_id = u_id cu,
                                   book_id = b_id b, borrow_date = Some today,
                                   due_date = Some (today + 7), return_date = None,
                                   returned = False, fine = 0\<rparr>
                    in (Success,
                        s\<lparr>books := update_book
                                      (b\<lparr>copies_available := copies_available b - 1\<rparr>) (books s),
                          borrow_records := borrow_records s @ [borrow],
                          next_record_id := Suc (next_record_id s)\<rparr>)))"

text \<open>
  \<open>return_book(record_id)\<close>. \<open>record.book\<close> is the row the foreign key points to;
  when there is none, the attribute access on \<open>None\<close> raises before the commit.
\<close>

definition student_return_book :: "user \<Rightarrow> nat \<Rightarrow> int \<Rightarrow> db \<Rightarrow> outcome \<times> db" where
  "student_return_book cu rid today s =
     (case get_record s rid of
        None \<Rightarrow> (NotFound, s)
      | Some r \<Rightarrow>
          if user_id r \<noteq> u_id cu then (Unauthorized, s)
          else if returned r then (AlreadyReturned, s)
          else (case get_book s (book_id r) of
                  None \<Rightarrow> (ServerError, s)
                | Some b \<Rightarrow>
                    (Success,
                     s\<lparr>books := update_book
                                   (b\<lparr>copies_available := copies_available b + 1\<rparr>) (books s),
                       borrow_records := update_record
                                   (r\<lparr>returned := True, return_date := Some today\<rparr>)
                                   (borrow_records s)\<rparr>)))"

text \<open>
  \<open>fines()\<close>: the loop over the user's records, with \<open>fine_per_day = 5\<close>. Its body
  adds to \<open>fine_total\<close> only for a record that is not returned and whose due date lies
  before today.
\<close>

definition fine_per_day :: int where
  "fine_per_day = 5"

definition fines_body :: "int \<Rightarrow> int \<Rightarrow> borrow_record \<Rightarrow> int" where
  "fines_body today fine_total r =
     (case due_date r of
        None \<Rightarrow> fine_total
      | Some due \<Rightarrow>
          if \<not> returned r \<and> due < today
          then (let days_late = today - due in fine_total + days_late * fine_per_day)
          else fine_total)"

definition student_fines :: "user \<Rightarrow> int \<Rightarrow> db \<Rightarrow> int" where
  "student_fines cu today s = foldl (fines_body today) 0 (records_of s (u_id cu))"

section \<open>Teacher handlers (blueprints/teacher.py)\<close>

text \<open>
  \<open>borrow_book(book_id)\<close>: as the student's, with a period of 14 days and two readings
  of the clock. The handler calls \<open>datetime.utcnow()\<close> once for \<open>borrow_date\<close> and once
  more for \<open>due_date\<close>; \<open>now1\<close> is the day of the first reading and \<open>now2\<close> the day of
  the second, which the \<open>Date\<close> columns keep.
\<close>

definition teacher_borrow_book ::
  "user \<Rightarrow> nat \<Rightarrow> int \<Rightarrow> int \<Rightarrow> db \<Rightarrow> outcome \<times> db" where
  "teacher_borrow_book cu bk now1 now2 s =
     (case get_book s bk of
        None \<Rightarrow> (NotFound, s)
      | Some b \<Rightarrow>
          if copies_available b \<le> 0 then (OutOfStock, s)
          else (case existing_loan s (u_id cu) bk of
                  Some existing \<Rightarrow> (AlreadyBorrowed, s)
                | None \<Rightarrow>
                    let borrow = \<lparr>r_id = next_record_id s, user_id = u_id cu,
                                   book_id = b_id b, borrow_date = Some now1,
                                   due_date = Some (now2 + 14), return_date = None,
                                   returned = False, fine = 0\<rparr>
                    in (Success,
                        s\<lparr>books := update_book
                                      (b\<lparr>copies_available := copies_available b - 1\<rparr>) (books s),
                          borrow_records := borrow_records s @ [borrow],
                          next_record_id := Suc (next_record_id s)\<rparr>)))"

text \<open>
  \<open>return_book(record_id)\<close>: after the ownership check the record is marked returned
  and the copy is given back; the handler does not look at \<open>record.returned\<close>.
\<close>

definition teacher_return_book :: "user \<Rightarrow> nat \<Rightarrow> int \<Rightarrow> db \<Rightarrow> outcome \<times> db" where
  "teacher_return_book cu rid now s =
     (case get_record s rid of
        None \<Rightarrow> (NotFound, s)
      | Some r \<Rightarrow>
          if user_id r \<noteq> u_id cu then (Unauthorized, s)
          else (case get_book s (book_id r) of
                  None \<Rightarrow> (ServerError, s)
                | Some b \<Rightarrow>
                    (Success,
                     s\<lparr>books := update_book
                                   (b\<lparr>copies_available := copies_available b + 1\<rparr>) (books s),
                       borrow_records := update_record
                                   (r\<lparr>returned := True, return_date := Some now\<rparr>)
                                   (borrow_records s)\<rparr>)))"

section \<open>Admin handlers for the catalog (blueprints/admin.py)\<close>

text \<open>
  The POST form of \<open>add_book\<close> and \<open>edit_book\<close> as the handler has decoded it. Decoding
  can fail: \<open>request.form[key]\<close> on a missing key aborts with 400, and \<open>int(...)\<close>
  on text that is no number raises \<open>ValueError\<close>. \<open>form_rating\<close> is 0 when the field is
  empty. \<open>form_cover\<close> is the secured file name when a file with an allowed extension was
  uploaded (the handler has saved it), and \<open>None\<close> otherwise.
\<close>

record book_form =
  form_isbn :: "string option"
  form_title :: string
  form_author :: string
  form_publisher :: string
  form_year :: int
  form_copies_total :: int
  form_category :: string
  form_description :: string
  form_rating :: int
  form_cover :: "string option"

datatype form_input = MissingKey | NotANumber | Form book_form

text \<open>\<open>request.form.get("isbn") or None\<close>: an empty field counts as absent.\<close>

definition or_None :: "string option \<Rightarrow> string option" where
  "or_None v = (case v of None \<Rightarrow> None | Some x \<Rightarrow> if x = [] then None else Some x)"

definition uploaded_cover :: "string \<Rightarrow> string" where
  "uploaded_cover filename = ''/static/uploads/'' @ filename"

definition open_library_cover :: "string \<Rightarrow> string" where
  "open_library_cover i = ''https://covers.openlibrary.org/b/isbn/'' @ i @ ''-L.jpg?default=false''"

text \<open>
  \<open>add_book()\<close> on POST. The new book starts with all its copies available. Whether the
  insert passes the unique constraints of the table is the database's answer,
  \<open>integrity_ok\<close>; the handler catches \<open>IntegrityError\<close> and \<open>ValueError\<close>, rolls back and
  reports an input error.
\<close>

definition admin_add_book :: "form_input \<Rightarrow> bool \<Rightarrow> db \<Rightarrow> outcome \<times> db" where
  "admin_add_book inp integrity_ok s =
     (case inp of
        MissingKey \<Rightarrow> (BadRequest, s)
      | NotANumber \<Rightarrow> (InputError, s)
      | Form f \<Rightarrow>
          let isbn' = or_None (form_isbn f);
              cover = (case form_cover f of
                         Some filename \<Rightarrow> Some (uploaded_cover filename)
                       | None \<Rightarrow> (case isbn' of
                                    Some i \<Rightarrow> Some (open_library_cover i)
                                  | None \<Rightarrow> None));
              b = \<lparr>b_id = next_book_id s, isbn = isbn', title = Some (form_title f),
                   author = form_author f, publisher = form_publisher f,
                   year = form_year f, rating = form_rating f,
                   copies_total = form_copies_total f,
                   copies_available = form_copies_total f,
                   category = form_category f,
                   description = Some (take 500 (form_description f)),
                   cover_url = cover\<rparr>
          in if integrity_ok
             then (Success, s\<lparr>books := books s @ [b], next_book_id := Suc (next_book_id s)\<rparr>)
             else (InputError, s))"

text \<open>
  \<open>edit_book(book_id)\<close> on POST. Its last block recomputes both copy counts: the
  number of copies out on loan is kept, and the available count is what is left of
  the new total, but not less than 0. No exception is caught here.
\<close>

definition admin_edit_book :: "nat \<Rightarrow> form_input \<Rightarrow> bool \<Rightarrow> db \<Rightarrow> outcome \<times> db" where
  "admin_edit_book bk inp integrity_ok s =
     (case get_book s bk of
        None \<Rightarrow> (NotFound, s)
      | Some b \<Rightarrow>
          (case inp of
             MissingKey \<Rightarrow> (BadRequest, s)
           | NotANumber \<Rightarrow> (ServerError, s)
           | Form f \<Rightarrow>
               let isbn' = or_None (form_isbn f);
                   cover = (case form_cover f of
                              Some filename \<Rightarrow> Some (uploaded_cover filename)
                            | None \<Rightarrow> (case isbn' of
                                         Some i \<Rightarrow> Some (open_library_cover i)
                                       | None \<Rightarrow> cover_url b));
                   new_total = form_copies_total f;
                   borrowed = copies_total b - copies_available b;
                   b' = b\<lparr>isbn := isbn', title := Some (form_title f),
                          author := form_author f, publisher := form_publisher f,
                          year := form_year f, category := form_category f,
                          description := Some (form_description f),
                          rating := form_rating f, cover_url := cover,
                          copies_total := new_total,
                          copies_available := max (new_total - borrowed) 0\<rparr>
               in if integrity_ok
                  then (Success, s\<lparr>books := update_book b' (books s)\<rparr>)
                  else (ServerError, s)))"

text \<open>
  \<open>delete_book(book_id)\<close>: refused while an unreturned loan points to the book.
  Whether the database lets the row go is again \<open>integrity_ok\<close>.
\<close>

definition admin_delete_book :: "nat \<Rightarrow> bool \<Rightarrow> db \<Rightarrow> outcome \<times> db" where
  "admin_delete_book bk integrity_ok s =
     (case get_book s bk of
        None \<Rightarrow> (NotFound, s)
      | Some b \<Rightarrow>
          if active_loans s (b_id b) \<noteq> 0 then (BookInUse, s)
          else if integrity_ok
          then (Success, s\<lparr>books := filter (\<lambda>x. b_id x \<noteq> b_id b) (books s)\<rparr>)
          else (ServerError, s))"

section \<open>Readers of the stored fine (blueprints/chatbot.py, routes.py)\<close>

text \<open>
  The \<open>check_fines\<close> intent of the chatbot: \<open>sum(r.fine or 0 for r in ...)\<close> over the
  user's records; an anonymous user is asked to log in (\<open>None\<close>).
\<close>

definition chatbot_check_fines :: "user option \<Rightarrow> db \<Rightarrow> real option" where
  "chatbot_check_fines cu s =
     (case cu of
        None \<Rightarrow> None
      | Some u \<Rightarrow>
          Some (foldl (\<lambda>acc r. acc + (if fine r = 0 then 0 else fine r)) 0
                  (records_of s (u_id u))))"

text \<open>
  routes.py is a module of its own. It builds an application at module level
  (\<open>app = Flask(__name__)\<close>) and registers its views on that application. The module
  never calls \<open>login_manager.init_app\<close> or \<open>db.init_app\<close> on it, and no other file
  imports the module. What an application has been given is what its views can use:
  \<open>current_user\<close> is resolved through the login manager of the application and a query
  through the database bound to it, and either access raises when there is none.
\<close>

record flask_app =
  has_login_manager :: bool
  has_db :: bool

definition routes_app :: flask_app where
  "routes_app = \<lparr>has_login_manager = False, has_db = False\<rparr>"

text \<open>
  routes.py, \<open>fines()\<close>, under \<open>login_required\<close>: the decorator reads \<open>current_user\<close>,
  the view queries the user's records and lists one entry for each record with a
  positive fine.
\<close>

definition routes_fines :: "user option \<Rightarrow> db \<Rightarrow> outcome + (string \<times> real) list" where
  "routes_fines cu s =
     (if \<not> has_login_manager routes_app then Inl ServerError
      else case cu of
             None \<Rightarrow> Inl LoginRedirect
           | Some u \<Rightarrow>
               if \<not> has_db routes_app then Inl ServerError
               else Inr (map (\<lambda>b. (''Overdue Book'', fine b))
                           (filter (\<lambda>b. fine b > 0) (records_of s (u_id u)))))"

text \<open>
  routes.py, the fine branch of \<open>chatbot_api()\<close>: it reads
  \<open>current_user.is_authenticated\<close>, asks an anonymous user to log in (\<open>None\<close>) and
  answers \<open>sum(b.fine for b in ...)\<close> otherwise.
\<close>

definition routes_chatbot_fines :: "user option \<Rightarrow> db \<Rightarrow> outcome + real option" where
  "routes_chatbot_fines cu s =
     (if \<not> has_login_manager routes_app then Inl ServerError
      else case cu of
             None \<Rightarrow> Inr None
           | Some u \<Rightarrow>
               if \<not> has_db routes_app then Inl ServerError
               else Inr (Some (foldl (\<lambda>acc b. acc + fine b) 0 (records_of s (u_id u)))))"

section \<open>Requests and runs\<close>

text \<open>
  The requests that write the tables \<open>books\<close> and \<open>borrow_records\<close>, each with the user
  of the session and the clock readings of the handler (two for the teacher's Borrow).
  A route is the view under its decorators.
\<close>

datatype request =
    StudentBorrow "user option" nat int
  | StudentReturn "user option" nat int
  | TeacherBorrow "user option" nat int int
  | TeacherReturn "user option" nat int
  | AdminAddBook "user option" form_input bool
  | AdminEditBook "user option" nat form_input bool
  | AdminDeleteBook "user option" nat bool

fun step :: "request \<Rightarrow> db \<Rightarrow> outcome \<times> db" where
  "step (StudentBorrow cu bk today) s =
     login_required cu (\<lambda>u. student_required u (student_borrow_book u bk today)) s"
| "step (StudentReturn cu rid today) s =
     login_required cu (\<lambda>u. student_required u (student_return_book u rid today)) s"
| "step (TeacherBorrow cu bk now1 now2) s =
     login_required cu (\<lambda>u. teacher_required u (teacher_borrow_book u bk now1 now2)) s"
| "step (TeacherReturn cu rid now) s =
     login_required cu (\<lambda>u. teacher_required u (teacher_return_book u rid now)) s"
| "step (AdminAddBook cu inp ok) s =
     login_required cu (\<lambda>u. admin_required u (admin_add_book inp ok)) s"
| "step (AdminEditBook cu bk inp ok) s =
     login_required cu (\<lambda>u. admin_required u (admin_edit_book bk inp ok)) s"
| "step (AdminDeleteBook cu bk ok) s =
     login_required cu (\<lambda>u. admin_required u (admin_delete_book bk ok)) s"

text \<open>The state after a sequence of requests, served one after the other.\<close>

fun run :: "request list \<Rightarrow> db \<Rightarrow> db" where
  "run [] s = s"
| "run (q # qs) s = run qs (snd (step q s))"

text \<open>The lending requests: Borrow and Return of students and teachers.\<close>

fun is_lending :: "request \<Rightarrow> bool" where
  "is_lending (StudentBorrow cu bk today) = True"
| "is_lending (StudentReturn cu rid today) = True"
| "is_lending (TeacherBorrow cu bk now1 now2) = True"
| "is_lending (TeacherReturn cu rid now) = True"
| "is_lending q = False"

text \<open>
  The bookkeeping the lending handlers rely on: record ids are unique and below the
  auto-increment counter, and for every book the available copies are not negative and
  add up, with the unreturned loans on the book, to its total.
\<close>

definition consistent :: "db \<Rightarrow> bool" where
  "consistent s \<longleftrightarrow>
     distinct (map r_id (borrow_records s))
     \<and> (\<forall>r \<in> set (borrow_records s). r_id r < next_record_id s)
     \<and> (\<forall>b \<in> set (books s).
           0 \<le> copies_available b
           \<and> copies_available b + int (active_loans s (b_id b)) = copies_total b)"

fun is_teacher_return :: "request \<Rightarrow> bool" where
  "is_teacher_return (TeacherReturn cu rid now) = True"
| "is_teacher_return q = False"

section \<open>Scenarios\<close>

text \<open>
  Concrete users, one book form and the states that the worked examples below start
  from. Every state is reached from the empty database by requests.
\<close>

definition the_admin :: user where
  "the_admin = \<lparr>u_id = 1, username = ''root'', role = ADMIN\<rparr>"

definition student_a :: user where
  "student_a = \<lparr>u_id = 2, username = ''asha'', role = STUDENT\<rparr>"

definition student_b :: user where
  "student_b = \<lparr>u_id = 3, username = ''bala'', role = STUDENT\<rparr>"

definition teacher_a :: user where
  "teacher_a = \<lparr>u_id = 4, username = ''chitra'', role = TEACHER\<rparr>"

definition teacher_b :: user where
  "teacher_b = \<lparr>u_id = 5, username = ''deepak'', role = TEACHER\<rparr>"

text \<open>The form of a new book with \<open>n\<close> copies.\<close>

definition new_book :: "int \<Rightarrow> form_input" where
  "new_book n = Form \<lparr>form_isbn = None, form_title = ''Algorithms'', form_author = ''Knuth'',
      form_publisher = ''AW'', form_year = 1968, form_copies_total = n,
      form_category = ''programming'', form_description = [], form_rating = 5,
      form_cover = None\<rparr>"

text \<open>That book as a row, with \<open>n\<close> copies of which \<open>a\<close> are available.\<close>

definition the_book :: "int \<Rightarrow> int \<Rightarrow> book" where
  "the_book n a = \<lparr>b_id = 1, isbn = None, title = Some ''Algorithms'', author = ''Knuth'',
      publisher = ''AW'', year = 1968, rating = 5, copies_total = n, copies_available = a,
      category = ''programming'', description = Some [], cover_url = None\<rparr>"

text \<open>
  The loan row number \<open>k\<close> of user \<open>u\<close> on that book, borrowed on day \<open>d\<close> for \<open>p\<close>
  days, with its return date if it has one.
\<close>

definition loan :: "nat \<Rightarrow> user \<Rightarrow> int \<Rightarrow> int \<Rightarrow> int option \<Rightarrow> borrow_record" where
  "loan k u d p ret = \<lparr>r_id = k, user_id = u_id u, book_id = 1, borrow_date = Some d,
      due_date = Some (d + p), return_date = ret, returned = (ret \<noteq> None), fine = 0\<rparr>"

text \<open>The catalog after the admin has added the book with \<open>n\<close> copies.\<close>

definition catalog :: "int \<Rightarrow> db" where
  "catalog n = snd (step (AdminAddBook (Some the_admin) (new_book n) True) empty_db)"

text \<open>A student has borrowed the only copy on day 0.\<close>

definition still_out :: db where
  "still_out = run [StudentBorrow (Some student_a) 1 0] (catalog 1)"

text \<open>The student has brought it back on day 10, three days late.\<close>

definition returned_late :: db where
  "returned_late =
     run [StudentBorrow (Some student_a) 1 0, StudentReturn (Some student_a) 1 10] (catalog 1)"

text \<open>A student and a teacher have each borrowed a copy of the book with \<open>n\<close> copies.\<close>

definition lent :: "int \<Rightarrow> db" where
  "lent n =
     run [StudentBorrow (Some student_a) 1 0, TeacherBorrow (Some teacher_a) 1 0 0] (catalog n)"

section \<open>Basic facts\<close>

lemmas model_defs =
  login_required_def student_required_def teacher_required_def admin_required_def
  student_borrow_book_def student_return_book_def teacher_borrow_book_def
  teacher_return_book_def admin_add_book_def admin_edit_book_def admin_delete_book_def
  get_book_def get_record_def existing_loan_def active_loans_def records_of_def
  update_book_def update_record_def or_None_def ADMIN_def TEACHER_def STUDENT_def
  empty_db_def Let_def

lemmas scenario_defs =
  the_admin_def student_a_def student_b_def teacher_a_def teacher_b_def new_book_def
  the_book_def catalog_def loan_def

subsection \<open>Looking rows up\<close>

lemma find_in_set: "find P xs = Some x \<Longrightarrow> x \<in> set xs"
  by (auto simp: find_Some_iff)

lemma find_append_one: "find P xs = Some x \<Longrightarrow> find P (xs @ ys) = Some x"
  by (induction xs) auto

lemma find_filter_neq:
  "find (\<lambda>b. b_id b = k) (filter (\<lambda>x. b_id x \<noteq> d) bs) =
     (if k = d then None else find (\<lambda>b. b_id b = k) bs)"
  by (induction bs) auto

lemma find_update_book:
  "find (\<lambda>b. b_id b = k) (update_book b' bs) =
     map_option (\<lambda>b. if b_id b = b_id b' then b' else b) (find (\<lambda>b. b_id b = k) bs)"
  by (induction bs) (auto simp: update_book_def)

lemma get_book_id: "get_book s k = Some b \<Longrightarrow> b_id b = k"
  by (auto simp: get_book_def find_Some_iff)

lemma get_record_id: "get_record s k = Some r \<Longrightarrow> r_id r = k"
  by (auto simp: get_record_def find_Some_iff)

lemma get_book_update:
  "books s' = update_book b' (books s) \<Longrightarrow>
   get_book s' k = map_option (\<lambda>b. if b_id b = b_id b' then b' else b) (get_book s k)"
  by (simp add: get_book_def find_update_book)

lemma get_book_changed:
  assumes "books s' = update_book c (books s)" and "get_book s k = Some b"
    and "get_book s' k = Some b'"
  shows "b' = (if b_id c = k then c else b)"
  using assms get_book_id [OF assms(2)] by (auto simp: get_book_update [OF assms(1)])

subsection \<open>What a committed request has written\<close>

lemma student_borrow_success:
  assumes "student_borrow_book cu bk today s = (Success, s')"
  shows "\<exists>b r. get_book s bk = Some b \<and> 0 < copies_available b
            \<and> existing_loan s (u_id cu) bk = None
            \<and> borrow_records s' = borrow_records s @ [r]
            \<and> r = \<lparr>r_id = next_record_id s, user_id = u_id cu, book_id = bk,
                     borrow_date = Some today, due_date = Some (today + 7),
                     return_date = None, returned = False, fine = 0\<rparr>
            \<and> books s' =
                update_book (b\<lparr>copies_available := copies_available b - 1\<rparr>) (books s)
            \<and> get_book s' bk = Some (b\<lparr>copies_available := copies_available b - 1\<rparr>)
            \<and> next_record_id s' = Suc (next_record_id s)"
  using assms
  by (auto simp: student_borrow_book_def Let_def get_book_update get_book_id
      split: option.splits if_splits)

lemma teacher_borrow_success:
  assumes "teacher_borrow_book cu bk now1 now2 s = (Success, s')"
  shows "\<exists>b r. get_book s bk = Some b \<and> 0 < copies_available b
            \<and> existing_loan s (u_id cu) bk = None
            \<and> borrow_records s' = borrow_records s @ [r]
            \<and> r = \<lparr>r_id = next_record_id s, user_id = u_id cu, book_id = bk,
                     borrow_date = Some now1, due_date = Some (now2 + 14),
                     return_date = None, returned = False, fine = 0\<rparr>
            \<and> books s' =
                update_book (b\<lparr>copies_available := copies_available b - 1\<rparr>) (books s)
            \<and> get_book s' bk = Some (b\<lparr>copies_available := copies_available b - 1\<rparr>)
            \<and> next_record_id s' = Suc (next_record_id s)"
  using assms
  by (auto simp: teacher_borrow_book_def Let_def get_book_update get_book_id
      split: option.splits if_splits)

lemma student_return_success:
  assumes "student_return_book cu rid today s = (Success, s')"
  shows "\<exists>r b. get_record s rid = Some r \<and> user_id r = u_id cu \<and> \<not> returned r
            \<and> get_book s (book_id r) = Some b
            \<and> books s' =
                update_book (b\<lparr>copies_available := copies_available b + 1\<rparr>) (books s)
            \<and> borrow_records s' =
                update_record (r\<lparr>returned := True, return_date := Some today\<rparr>)
                  (borrow_records s)
            \<and> next_record_id s' = next_record_id s"
  using assms
  by (auto simp: student_return_book_def split: option.splits if_splits)

lemma teacher_return_success:
  assumes "teacher_return_book cu rid now s = (Success, s')"
  shows "\<exists>r b. get_record s rid = Some r \<and> user_id r = u_id cu
            \<and> get_book s (book_id r) = Some b
            \<and> books s' =
                update_book (b\<lparr>copies_available := copies_available b + 1\<rparr>) (books s)
            \<and> borrow_records s' =
                update_record (r\<lparr>returned := True, return_date := Some now\<rparr>)
                  (borrow_records s)
            \<and> next_record_id s' = next_record_id s"
  using assms
  by (auto simp: teacher_return_book_def split: option.splits if_splits)

lemma admin_add_success:
  assumes "admin_add_book inp ok s = (Success, s')"
  shows "\<exists>b. books s' = books s @ [b] \<and> b_id b = next_book_id s
            \<and> borrow_records s' = borrow_records s"
  using assms
  by (auto simp: admin_add_book_def Let_def split: form_input.splits if_splits)

lemma admin_edit_success:
  assumes "admin_edit_book bk inp ok s = (Success, s')"
  shows "\<exists>b f b'. get_book s bk = Some b \<and> inp = Form f
            \<and> books s' = update_book b' (books s) \<and> b_id b' = bk
            \<and> copies_total b' = form_copies_total f
            \<and> copies_available b' =
                max (form_copies_total f - (copies_total b - copies_available b)) 0
            \<and> borrow_records s' = borrow_records s"
  using assms
  by (auto simp: admin_edit_book_def Let_def get_book_id
      split: option.splits form_input.splits if_splits)

lemma admin_delete_success:
  assumes "admin_delete_book bk ok s = (Success, s')"
  shows "\<exists>b. get_book s bk = Some b \<and> active_loans s bk = 0
            \<and> books s' = filter (\<lambda>x. b_id x \<noteq> bk) (books s)
            \<and> borrow_records s' = borrow_records s"
  using assms
  by (auto simp: admin_delete_book_def get_book_id split: option.splits if_splits)

text \<open>A request that does not end in \<open>Success\<close> writes nothing.\<close>

lemma step_rejected: "fst (step q s) \<noteq> Success \<Longrightarrow> snd (step q s) = s"
  by (cases q)
     (auto simp: login_required_def student_required_def teacher_required_def
        admin_required_def student_borrow_book_def student_return_book_def
        teacher_borrow_book_def teacher_return_book_def admin_add_book_def
        admin_edit_book_def admin_delete_book_def Let_def
        split: option.splits if_splits form_input.splits)

text \<open>A request that ends in \<open>Success\<close> has passed its decorators.\<close>

lemma step_success_cases:
  assumes "step q s = (Success, s')"
  shows "(case q of
            StudentBorrow cu bk today \<Rightarrow>
              \<exists>u. cu = Some u \<and> student_borrow_book u bk today s = (Success, s')
          | StudentReturn cu rid today \<Rightarrow>
              \<exists>u. cu = Some u \<and> student_return_book u rid today s = (Success, s')
          | TeacherBorrow cu bk now1 now2 \<Rightarrow>
              \<exists>u. cu = Some u \<and> teacher_borrow_book u bk now1 now2 s = (Success, s')
          | TeacherReturn cu rid now \<Rightarrow>
              \<exists>u. cu = Some u \<and> teacher_return_book u rid now s = (Success, s')
          | AdminAddBook cu inp ok \<Rightarrow> admin_add_book inp ok s = (Success, s')
          | AdminEditBook cu bk inp ok \<Rightarrow> admin_edit_book bk inp ok s = (Success, s')
          | AdminDeleteBook cu bk ok \<Rightarrow> admin_delete_book bk ok s = (Success, s'))"
  using assms
  by (cases q)
     (auto simp: login_required_def student_required_def teacher_required_def
        admin_required_def split: option.splits if_splits)

subsection \<open>The scenario states, evaluated\<close>

lemma catalog_eq:
  "catalog n =
     \<lparr>books = [the_book n n], borrow_records = [], next_book_id = 2, next_record_id = 1\<rparr>"
  by (simp add: scenario_defs model_defs)

lemma student_borrows_last_copy:
  "step (StudentBorrow (Some student_a) 1 0) (catalog 1) =
     (Success, \<lparr>books = [the_book 1 0], borrow_records = [loan 1 student_a 0 7 None],
                next_book_id = 2, next_record_id = 2\<rparr>)"
  by (simp add: catalog_eq) (simp add: scenario_defs model_defs)

lemma teacher_borrows_a_copy:
  "step (TeacherBorrow (Some teacher_a) 1 3 3) (catalog 2) =
     (Success, \<lparr>books = [the_book 2 1], borrow_records = [loan 1 teacher_a 3 14 None],
                next_book_id = 2, next_record_id = 2\<rparr>)"
  by (simp add: catalog_eq) (simp add: scenario_defs model_defs)

lemma still_out_eq:
  "still_out = \<lparr>books = [the_book 1 0], borrow_records = [loan 1 student_a 0 7 None],
                 next_book_id = 2, next_record_id = 2\<rparr>"
  by (simp add: still_out_def catalog_eq) (simp add: scenario_defs model_defs)

lemma returned_late_eq:
  "returned_late =
     \<lparr>books = [the_book 1 1], borrow_records = [loan 1 student_a 0 7 (Some 10)],
      next_book_id = 2, next_record_id = 2\<rparr>"
  by (simp add: returned_late_def catalog_eq) (simp add: scenario_defs model_defs)

lemma lent_2:
  "lent 2 = \<lparr>books = [the_book 2 0],
      borrow_records = [loan 1 student_a 0 7 None, loan 2 teacher_a 0 14 None],
      next_book_id = 2, next_record_id = 3\<rparr>"
  by (simp add: lent_def catalog_eq) (simp add: scenario_defs model_defs)

lemma lent_3:
  "lent 3 = \<lparr>books = [the_book 3 1],
      borrow_records = [loan 1 student_a 0 7 None, loan 2 teacher_a 0 14 None],
      next_book_id = 2, next_record_id = 3\<rparr>"
  by (simp add: lent_def catalog_eq) (simp add: scenario_defs model_defs)

section \<open>Return by a user who does not own the loan\<close>

text \<open>
  Claim C8. A Return call on an existing loan by a user other than its owner is
  rejected with \<open>Unauthorized\<close> and the database is left as it was, so the loan and
  the copy count of its book are untouched. This holds for the view of the student
  and for the view of the teacher, and for the routes once the user has the role the
  route asks for.
\<close>

theorem return_by_non_owner_unauthorized:
  assumes "get_record s rid = Some r" and "user_id r \<noteq> u_id cu"
  shows "student_return_book cu rid today s = (Unauthorized, s)
       \<and> teacher_return_book cu rid now s = (Unauthorized, s)
       \<and> (role cu = STUDENT \<longrightarrow>
            step (StudentReturn (Some cu) rid today) s = (Unauthorized, s))
       \<and> (role cu = TEACHER \<longrightarrow>
            step (TeacherReturn (Some cu) rid now) s = (Unauthorized, s))"
  using assms
  by (simp add: login_required_def student_required_def teacher_required_def
      student_return_book_def teacher_return_book_def)

text \<open>
  Scenario E: another student asks to return the student's loan, another teacher
  the teacher's loan.
\<close>

theorem return_by_non_owner_unauthorized_witness:
  "step (StudentReturn (Some student_b) 1 3) (lent 2) = (Unauthorized, lent 2)
   \<and> step (TeacherReturn (Some teacher_b) 2 3) (lent 2) = (Unauthorized, lent 2)"
proof -
  have r1: "get_record (lent 2) 1 = Some (loan 1 student_a 0 7 None)"
    by (simp add: lent_2 get_record_def loan_def)
  have n1: "user_id (loan 1 student_a 0 7 None) \<noteq> u_id student_b"
    by (simp add: loan_def student_a_def student_b_def)
  have r2: "get_record (lent 2) 2 = Some (loan 2 teacher_a 0 14 None)"
    by (simp add: lent_2 get_record_def loan_def)
  have n2: "user_id (loan 2 teacher_a 0 14 None) \<noteq> u_id teacher_b"
    by (simp add: loan_def teacher_a_def teacher_b_def)
  show ?thesis
    using return_by_non_owner_unauthorized [OF r1 n1, of 3 3]
      return_by_non_owner_unauthorized [OF r2 n2, of 3 3]
    by (simp add: student_b_def teacher_b_def)
qed

section \<open>What a successful Borrow writes\<close>

text \<open>
  A successful Borrow adds one loan of the user on the book, not returned, and lowers
  the book's \<open>copies_available\<close> by 1. Through the student's route the borrow date is
  the day of the request and the due date lies 7 days later. Through the teacher's
  route the borrow date is the day of the first reading of the clock and the due date
  lies 14 days after the day of the second reading.
\<close>

lemma borrow_writes:
  "(step (StudentBorrow cu bk today) s = (Success, s') \<longrightarrow>
      (\<exists>u b r. cu = Some u \<and> role u = STUDENT \<and> get_book s bk = Some b
          \<and> borrow_records s' = borrow_records s @ [r]
          \<and> user_id r = u_id u \<and> book_id r = bk \<and> \<not> returned r
          \<and> borrow_date r = Some today \<and> due_date r = Some (today + 7)
          \<and> get_book s' bk = Some (b\<lparr>copies_available := copies_available b - 1\<rparr>)))
   \<and> (step (TeacherBorrow tu tbk now1 now2) ts = (Success, ts') \<longrightarrow>
      (\<exists>u b r. tu = Some u \<and> role u = TEACHER \<and> get_book ts tbk = Some b
          \<and> borrow_records ts' = borrow_records ts @ [r]
          \<and> user_id r = u_id u \<and> book_id r = tbk \<and> \<not> returned r
          \<and> borrow_date r = Some now1 \<and> due_date r = Some (now2 + 14)
          \<and> get_book ts' tbk = Some (b\<lparr>copies_available := copies_available b - 1\<rparr>)))"
proof (intro conjI impI)
  assume "step (StudentBorrow cu bk today) s = (Success, s')"
  then obtain u where u: "cu = Some u" "role u = STUDENT"
      "student_borrow_book u bk today s = (Success, s')"
    by (auto simp: login_required_def student_required_def split: option.splits if_splits)
  from student_borrow_success [OF u(3)] u(1,2)
  show "\<exists>u b r. cu = Some u \<and> role u = STUDENT \<and> get_book s bk = Some b
          \<and> borrow_records s' = borrow_records s @ [r]
          \<and> user_id r = u_id u \<and> book_id r = bk \<and> \<not> returned r
          \<and> borrow_date r = Some today \<and> due_date r = Some (today + 7)
          \<and> get_book s' bk = Some (b\<lparr>copies_available := copies_available b - 1\<rparr>)"
    by auto
next
  assume "step (TeacherBorrow tu tbk now1 now2) ts = (Success, ts')"
  then obtain u where u: "tu = Some u" "role u = TEACHER"
      "teacher_borrow_book u tbk now1 now2 ts = (Success, ts')"
    by (auto simp: login_required_def teacher_required_def split: option.splits if_splits)
  from teacher_borrow_success [OF u(3)] u(1,2)
  show "\<exists>u b r. tu = Some u \<and> role u = TEACHER \<and> get_book ts tbk = Some b
          \<and> borrow_records ts' = borrow_records ts @ [r]
          \<and> user_id r = u_id u \<and> book_id r = tbk \<and> \<not> returned r
          \<and> borrow_date r = Some now1 \<and> due_date r = Some (now2 + 14)
          \<and> get_book ts' tbk = Some (b\<lparr>copies_available := copies_available b - 1\<rparr>)"
    by auto
qed

text \<open>
  When both readings of the teacher's handler fall on the same day, the due date is
  the borrow date plus 14.
\<close>

lemma teacher_borrow_same_day:
  assumes "step (TeacherBorrow tu tbk now now) ts = (Success, ts')"
  shows "\<exists>r. borrow_records ts' = borrow_records ts @ [r]
           \<and> borrow_date r = Some now \<and> due_date r = Some (now + 14)"
proof -
  note teacher_part = conjunct2 [OF borrow_writes]
  from teacher_part [of tu tbk now now ts ts'] assms show ?thesis by blast
qed

text \<open>
  Claim C5 (a successful Borrow sets \<open>due_date = borrow_date + loan period\<close>, 7 days for
  a student and 14 days for a teacher, and takes one copy) does not hold of the
  teacher's \<open>borrow_book\<close> when midnight falls between its two readings of the clock.
  With the first reading on day 3 and the second on day 4, the Borrow succeeds, takes
  one of the two copies, and stores the borrow date 3 with the due date 18, which is 15
  days later.
\<close>

theorem teacher_borrow_across_midnight:
  "step (TeacherBorrow (Some teacher_a) 1 3 4) (catalog 2) =
     (Success,
      \<lparr>books = [the_book 2 1],
       borrow_records =
         [\<lparr>r_id = 1, user_id = 4, book_id = 1, borrow_date = Some 3, due_date = Some 18,
           return_date = None, returned = False, fine = 0\<rparr>],
       next_book_id = 2, next_record_id = 2\<rparr>)"
  by (simp add: catalog_eq) (simp add: scenario_defs model_defs)

section \<open>The order of the checks in Borrow\<close>

text \<open>
  Claim C7, as amended. Borrow tests the stock first and the user's unreturned loan
  second: for a Borrow call on an existing book by a user who already holds an
  unreturned loan on it, the result is \<open>OutOfStock\<close> when \<open>copies_available \<le> 0\<close> and
  \<open>AlreadyBorrowed\<close> when a copy is available, in the student's handler and in the
  teacher's alike; the database is unchanged either way.
\<close>

theorem borrow_with_active_loan:
  assumes "get_book s bk = Some b" and "existing_loan s (u_id cu) bk = Some r"
  shows "student_borrow_book cu bk today s =
           (if copies_available b \<le> 0 then OutOfStock else AlreadyBorrowed, s)
       \<and> teacher_borrow_book cu bk now1 now2 s =
           (if copies_available b \<le> 0 then OutOfStock else AlreadyBorrowed, s)
       \<and> (role cu = STUDENT \<longrightarrow> step (StudentBorrow (Some cu) bk today) s =
           (if copies_available b \<le> 0 then OutOfStock else AlreadyBorrowed, s))
       \<and> (role cu = TEACHER \<longrightarrow> step (TeacherBorrow (Some cu) bk now1 now2) s =
           (if copies_available b \<le> 0 then OutOfStock else AlreadyBorrowed, s))"
  using assms
  by (simp add: login_required_def student_required_def teacher_required_def
      student_borrow_book_def teacher_borrow_book_def)

text \<open>
  The student and the teacher who hold a loan ask again: with no copy left both are
  told the book is out of stock, with one copy left both are told they have it
  already.
\<close>

theorem borrow_with_active_loan_witness:
  "step (StudentBorrow (Some student_a) 1 1) (lent 2) = (OutOfStock, lent 2)
   \<and> step (TeacherBorrow (Some teacher_a) 1 1 1) (lent 2) = (OutOfStock, lent 2)
   \<and> step (StudentBorrow (Some student_a) 1 1) (lent 3) = (AlreadyBorrowed, lent 3)
   \<and> step (TeacherBorrow (Some teacher_a) 1 1 1) (lent 3) = (AlreadyBorrowed, lent 3)"
proof -
  have b2: "get_book (lent 2) 1 = Some (the_book 2 0)"
    by (simp add: lent_2 get_book_def the_book_def)
  have b3: "get_book (lent 3) 1 = Some (the_book 3 1)"
    by (simp add: lent_3 get_book_def the_book_def)
  have s2: "existing_loan (lent 2) (u_id student_a) 1 = Some (loan 1 student_a 0 7 None)"
    by (simp add: lent_2 existing_loan_def loan_def)
  have s3: "existing_loan (lent 3) (u_id student_a) 1 = Some (loan 1 student_a 0 7 None)"
    by (simp add: lent_3 existing_loan_def loan_def)
  have t2: "existing_loan (lent 2) (u_id teacher_a) 1 = Some (loan 2 teacher_a 0 14 None)"
    by (simp add: lent_2 existing_loan_def loan_def student_a_def teacher_a_def)
  have t3: "existing_loan (lent 3) (u_id teacher_a) 1 = Some (loan 2 teacher_a 0 14 None)"
    by (simp add: lent_3 existing_loan_def loan_def student_a_def teacher_a_def)
  show ?thesis
    using borrow_with_active_loan [OF b2 s2, of 1 1 1]
      borrow_with_active_loan [OF b2 t2, of 1 1 1]
      borrow_with_active_loan [OF b3 s3, of 1 1 1]
      borrow_with_active_loan [OF b3 t3, of 1 1 1]
    by (simp add: student_a_def teacher_a_def the_book_def)
qed

text \<open>
  The claim as first stated puts \<open>AlreadyBorrowed\<close> before \<open>OutOfStock\<close>. It fails once
  the last copy is out: the student holds an unreturned loan on the book, asks again,
  and the answer is \<open>OutOfStock\<close>; the same for the teacher.
\<close>

theorem borrow_with_active_loan_counterexample:
  "existing_loan (lent 2) (u_id student_a) 1 = Some (loan 1 student_a 0 7 None)
   \<and> step (StudentBorrow (Some student_a) 1 1) (lent 2) = (OutOfStock, lent 2)
   \<and> fst (step (StudentBorrow (Some student_a) 1 1) (lent 2)) \<noteq> AlreadyBorrowed
   \<and> existing_loan (lent 2) (u_id teacher_a) 1 = Some (loan 2 teacher_a 0 14 None)
   \<and> step (TeacherBorrow (Some teacher_a) 1 1 1) (lent 2) = (OutOfStock, lent 2)
   \<and> fst (step (TeacherBorrow (Some teacher_a) 1 1 1) (lent 2)) \<noteq> AlreadyBorrowed"
  by (simp add: lent_2) (simp add: scenario_defs model_defs)

section \<open>Who changes the available count\<close>

text \<open>
  Claim C6, as amended. Take a book that exists before and after a request. A request
  that does not succeed leaves its \<open>copies_available\<close> as it was. A successful Borrow
  of that book lowers it by 1, a successful Return of a loan on that book raises it by
  1, and a successful \<open>edit_book\<close> of that book by the admin sets it to
  \<open>max (new_total - (copies_total - copies_available)) 0\<close>. Every other successful
  request (a Borrow, Return or edit of another book, \<open>add_book\<close>, \<open>delete_book\<close>) leaves
  it unchanged.
\<close>

theorem copies_available_frame:
  assumes "get_book s k = Some b" and "step q s = (res, s')" and "get_book s' k = Some b'"
  shows "copies_available b' =
     (if res \<noteq> Success then copies_available b
      else case q of
        StudentBorrow cu bk today \<Rightarrow>
          if bk = k then copies_available b - 1 else copies_available b
      | TeacherBorrow cu bk now1 now2 \<Rightarrow>
          if bk = k then copies_available b - 1 else copies_available b
      | StudentReturn cu rid today \<Rightarrow>
          if map_option book_id (get_record s rid) = Some k
          then copies_available b + 1 else copies_available b
      | TeacherReturn cu rid now \<Rightarrow>
          if map_option book_id (get_record s rid) = Some k
          then copies_available b + 1 else copies_available b
      | AdminEditBook cu bk inp ok \<Rightarrow>
          if bk = k
          then (case inp of
                  Form f \<Rightarrow> max (form_copies_total f - (copies_total b - copies_available b)) 0
                | _ \<Rightarrow> copies_available b)
          else copies_available b
      | AdminAddBook cu inp ok \<Rightarrow> copies_available b
      | AdminDeleteBook cu bk ok \<Rightarrow> copies_available b)"
proof (cases "res = Success")
  case False
  with assms(2) have "s' = s" using step_rejected [of q s] by simp
  with assms False show ?thesis by simp
next
  case True
  note sc = step_success_cases [OF assms(2) [unfolded True]]
  show ?thesis
  proof (cases q)
    case (StudentBorrow cu bk today)
    with sc obtain u where "student_borrow_book u bk today s = (Success, s')" by auto
    from student_borrow_success [OF this] obtain b0 where
      b0: "get_book s bk = Some b0"
        "books s' = update_book (b0\<lparr>copies_available := copies_available b0 - 1\<rparr>) (books s)"
      by blast
    from get_book_changed [OF b0(2) assms(1) assms(3)] get_book_id [OF b0(1)] b0(1) assms(1)
    show ?thesis using True StudentBorrow by auto
  next
    case (TeacherBorrow cu bk now1 now2)
    with sc obtain u where "teacher_borrow_book u bk now1 now2 s = (Success, s')" by auto
    from teacher_borrow_success [OF this] obtain b0 where
      b0: "get_book s bk = Some b0"
        "books s' = update_book (b0\<lparr>copies_available := copies_available b0 - 1\<rparr>) (books s)"
      by blast
    from get_book_changed [OF b0(2) assms(1) assms(3)] get_book_id [OF b0(1)] b0(1) assms(1)
    show ?thesis using True TeacherBorrow by auto
  next
    case (StudentReturn cu rid today)
    with sc obtain u where "student_return_book u rid today s = (Success, s')" by auto
    from student_return_success [OF this] obtain r b0 where
      b0: "get_record s rid = Some r" "get_book s (book_id r) = Some b0"
        "books s' = update_book (b0\<lparr>copies_available := copies_available b0 + 1\<rparr>) (books s)"
      by blast
    from get_book_changed [OF b0(3) assms(1) assms(3)] get_book_id [OF b0(2)] b0(1,2) assms(1)
    show ?thesis using True StudentReturn by auto
  next
    case (TeacherReturn cu rid now)
    with sc obtain u where "teacher_return_book u rid now s = (Success, s')" by auto
    from teacher_return_success [OF this] obtain r b0 where
      b0: "get_record s rid = Some r" "get_book s (book_id r) = Some b0"
        "books s' = update_book (b0\<lparr>copies_available := copies_available b0 + 1\<rparr>) (books s)"
      by blast
    from get_book_changed [OF b0(3) assms(1) assms(3)] get_book_id [OF b0(2)] b0(1,2) assms(1)
    show ?thesis using True TeacherReturn by auto
  next
    case (AdminAddBook cu inp ok)
    with sc have "admin_add_book inp ok s = (Success, s')" by simp
    from admin_add_success [OF this] obtain nb where "books s' = books s @ [nb]" by blast
    with assms(1,3) have "b' = b" by (simp add: get_book_def find_append_one)
    then show ?thesis using True AdminAddBook by simp
  next
    case (AdminEditBook cu bk inp ok)
    with sc have "admin_edit_book bk inp ok s = (Success, s')" by simp
    from admin_edit_success [OF this] obtain b0 f c where
      c: "get_book s bk = Some b0" "inp = Form f" "books s' = update_book c (books s)"
        "b_id c = bk"
        "copies_available c =
           max (form_copies_total f - (copies_total b0 - copies_available b0)) 0"
      by blast
    from get_book_changed [OF c(3) assms(1) assms(3)] c(1,2,4,5) assms(1)
    show ?thesis using True AdminEditBook by auto
  next
    case (AdminDeleteBook cu bk ok)
    with sc have "admin_delete_book bk ok s = (Success, s')" by simp
    from admin_delete_success [OF this]
    have "books s' = filter (\<lambda>x. b_id x \<noteq> bk) (books s)" by blast
    with assms(1,3) have "b' = b"
      by (auto simp: get_book_def find_filter_neq split: if_splits)
    then show ?thesis using True AdminDeleteBook by simp
  qed
qed

text \<open>
  The book with one copy: the student's Borrow takes the available count from 1 to 0,
  and the admin's edit to a total of 5 takes it from 1 to \<open>max (5 - (1 - 1)) 0 = 5\<close>.
\<close>

theorem copies_available_frame_witness:
  "get_book (catalog 1) 1 = Some (the_book 1 1)
   \<and> step (StudentBorrow (Some student_a) 1 0) (catalog 1) =
       (Success, \<lparr>books = [the_book 1 0], borrow_records = [loan 1 student_a 0 7 None],
                  next_book_id = 2, next_record_id = 2\<rparr>)
   \<and> copies_available (the_book 1 0) = copies_available (the_book 1 1) - 1
   \<and> step (AdminEditBook (Some the_admin) 1 (new_book 5) True) (catalog 1) =
       (Success, \<lparr>books = [the_book 5 5], borrow_records = [], next_book_id = 2,
                  next_record_id = 1\<rparr>)
   \<and> copies_available (the_book 5 5) =
       max (5 - (copies_total (the_book 1 1) - copies_available (the_book 1 1))) 0"
proof -
  let ?s1 = "\<lparr>books = [the_book 1 0], borrow_records = [loan 1 student_a 0 7 None],
               next_book_id = 2, next_record_id = 2\<rparr>"
  let ?s2 = "\<lparr>books = [the_book 5 5], borrow_records = [], next_book_id = 2,
               next_record_id = 1\<rparr>"
  have g: "get_book (catalog 1) 1 = Some (the_book 1 1)"
    by (simp add: catalog_eq get_book_def the_book_def)
  have g1: "get_book ?s1 1 = Some (the_book 1 0)" by (simp add: get_book_def the_book_def)
  have g2: "get_book ?s2 1 = Some (the_book 5 5)" by (simp add: get_book_def the_book_def)
  have e: "step (AdminEditBook (Some the_admin) 1 (new_book 5) True) (catalog 1) = (Success, ?s2)"
    by (simp add: catalog_eq) (simp add: scenario_defs model_defs)
  have "copies_available (the_book 1 0) = copies_available (the_book 1 1) - 1"
    using copies_available_frame [OF g student_borrows_last_copy g1] by simp
  moreover have "copies_available (the_book 5 5) =
       max (5 - (copies_total (the_book 1 1) - copies_available (the_book 1 1))) 0"
    using copies_available_frame [OF g e g2] by (simp add: new_book_def)
  ultimately show ?thesis using g e student_borrows_last_copy by blast
qed

text \<open>
  The claim as first stated lets only Borrow and Return change the count. The admin's
  \<open>edit_book\<close> is neither, and it changes the count of the book from 1 to 5.
\<close>

theorem edit_book_changes_copies_available:
  "get_book (catalog 1) 1 = Some (the_book 1 1)
   \<and> step (AdminEditBook (Some the_admin) 1 (new_book 5) True) (catalog 1) =
       (Success, \<lparr>books = [the_book 5 5], borrow_records = [], next_book_id = 2,
                  next_record_id = 1\<rparr>)
   \<and> \<not> is_lending (AdminEditBook (Some the_admin) 1 (new_book 5) True)
   \<and> copies_available (the_book 1 1) = 1 \<and> copies_available (the_book 5 5) = 5"
  by (simp add: catalog_eq) (simp add: scenario_defs model_defs)

section \<open>The fines view\<close>

lemma fines_body_acc: "fines_body today acc r = acc + fines_body today 0 r"
  by (simp add: fines_body_def Let_def split: option.splits)

lemma foldl_fines_body:
  "foldl (fines_body today) acc rs = acc + sum_list (map (fines_body today 0) rs)"
proof (induction rs arbitrary: acc)
  case Nil
  show ?case by simp
next
  case (Cons r rs)
  have "foldl (fines_body today) acc (r # rs) =
          foldl (fines_body today) (fines_body today acc r) rs"
    by simp
  also have "\<dots> = fines_body today acc r + sum_list (map (fines_body today 0) rs)"
    by (rule Cons.IH)
  also have "\<dots> = acc + sum_list (map (fines_body today 0) (r # rs))"
    using fines_body_acc [of today acc r] by simp
  finally show ?case .
qed

lemma fines_body_mono: "t1 \<le> t2 \<Longrightarrow> fines_body t1 0 r \<le> fines_body t2 0 r"
  by (auto simp: fines_body_def fine_per_day_def Let_def split: option.splits)

lemma sum_list_all_zero:
  "\<forall>x \<in> set xs. f x = (0::int) \<Longrightarrow> sum_list (map f xs) = 0"
  by (induction xs) simp_all

text \<open>
  Claim C9. The fine grows with the day it is computed for. For a loan that is not
  returned and is overdue on day \<open>t1\<close>, the view counts \<open>5 * (t1 - due)\<close> on day \<open>t1\<close> and
  \<open>5 * (t2 - due)\<close> on a later day \<open>t2\<close>, which is not less; the same order holds for what
  the loop adds for any record, and so for a user's fine total.
\<close>

theorem fine_monotone_in_time:
  assumes "t1 \<le> t2"
  shows "(\<not> returned r \<and> due_date r = Some due \<and> due < t1 \<longrightarrow>
            fines_body t1 0 r = 5 * (t1 - due) \<and> fines_body t2 0 r = 5 * (t2 - due)
            \<and> fines_body t1 0 r \<le> fines_body t2 0 r)
       \<and> fines_body t1 0 r \<le> fines_body t2 0 r
       \<and> student_fines cu t1 s \<le> student_fines cu t2 s"
proof (intro conjI impI)
  assume a: "\<not> returned r \<and> due_date r = Some due \<and> due < t1"
  with assms show "fines_body t1 0 r = 5 * (t1 - due)" "fines_body t2 0 r = 5 * (t2 - due)"
    by (simp_all add: fines_body_def fine_per_day_def Let_def)
next
  show "fines_body t1 0 r \<le> fines_body t2 0 r" "fines_body t1 0 r \<le> fines_body t2 0 r"
    using assms by (rule fines_body_mono)+
next
  have "sum_list (map (fines_body t1 0) (records_of s (u_id cu)))
          \<le> sum_list (map (fines_body t2 0) (records_of s (u_id cu)))"
    by (rule sum_list_mono) (rule fines_body_mono [OF assms])
  then show "student_fines cu t1 s \<le> student_fines cu t2 s"
    by (simp add: student_fines_def foldl_fines_body)
qed

text \<open>The loan due on day 7 and still out: 5 on day 8, 15 on day 10.\<close>

theorem fine_monotone_in_time_witness:
  "(8::int) \<le> 10
   \<and> fines_body 8 0 (loan 1 student_a 0 7 None) = 5
   \<and> fines_body 10 0 (loan 1 student_a 0 7 None) = 15
   \<and> fines_body 8 0 (loan 1 student_a 0 7 None) \<le> fines_body 10 0 (loan 1 student_a 0 7 None)
   \<and> student_fines student_a 8 still_out \<le> student_fines student_a 10 still_out"
proof -
  have h: "(8::int) \<le> 10" by simp
  have a: "\<not> returned (loan 1 student_a 0 7 None)
           \<and> due_date (loan 1 student_a 0 7 None) = Some 7 \<and> (7::int) < 8"
    by (simp add: loan_def)
  show ?thesis
    using fine_monotone_in_time [OF h, of "loan 1 student_a 0 7 None" 7 student_a still_out] a
    by simp
qed

text \<open>
  Claim C4, as amended. The fines view counts a loan only while it is not returned:
  for a loan that is not returned and whose due date lies before today it adds
  \<open>fine_per_day * (today - due_date)\<close>, with \<open>fine_per_day = 5\<close> and whole days; for a
  returned loan it adds nothing, however late the return was. The total is the sum of
  what is added for each record of the user, so a user whose loans are all returned
  has a fine total of 0.
\<close>

theorem fines_count_unreturned_overdue_only:
  "(\<not> returned r \<and> due_date r = Some due \<and> due < today \<longrightarrow>
        fines_body today acc r = acc + fine_per_day * (today - due))
   \<and> (returned r \<longrightarrow> fines_body today acc r = acc)
   \<and> student_fines cu today s = sum_list (map (fines_body today 0) (records_of s (u_id cu)))
   \<and> ((\<forall>x \<in> set (records_of s (u_id cu)). returned x) \<longrightarrow> student_fines cu today s = 0)"
proof (intro conjI impI)
  assume "\<not> returned r \<and> due_date r = Some due \<and> due < today"
  then show "fines_body today acc r = acc + fine_per_day * (today - due)"
    by (simp add: fines_body_def Let_def)
next
  assume "returned r"
  then show "fines_body today acc r = acc"
    by (simp add: fines_body_def split: option.splits)
next
  show eq: "student_fines cu today s =
              sum_list (map (fines_body today 0) (records_of s (u_id cu)))"
    by (simp add: student_fines_def foldl_fines_body)
  assume all: "\<forall>x \<in> set (records_of s (u_id cu)). returned x"
  have "\<forall>x \<in> set (records_of s (u_id cu)). fines_body today 0 x = 0"
    using all by (simp add: fines_body_def split: option.splits)
  then have "sum_list (map (fines_body today 0) (records_of s (u_id cu))) = 0"
    by (rule sum_list_all_zero)
  then show "student_fines cu today s = 0"
    by (simp add: eq)
qed

text \<open>
  Scenario C with the code's rule: borrowed on day 0 for 7 days, the loan counts
  \<open>5 * (10 - 7) = 15\<close> on day 10 while it is out, and 0 once it has been returned on
  day 10.
\<close>

theorem fines_count_unreturned_overdue_only_witness:
  "fines_body 10 0 (loan 1 student_a 0 7 None) = 0 + fine_per_day * (10 - 7)
   \<and> fine_per_day * (10 - 7) = 15
   \<and> fines_body 10 0 (loan 1 student_a 0 7 (Some 10)) = 0
   \<and> student_fines student_a 10 still_out = 15
   \<and> student_fines student_a 10 returned_late = 0"
proof -
  have a: "\<not> returned (loan 1 student_a 0 7 None)
           \<and> due_date (loan 1 student_a 0 7 None) = Some 7 \<and> (7::int) < 10"
    by (simp add: loan_def)
  have b: "returned (loan 1 student_a 0 7 (Some 10))"
    by (simp add: loan_def)
  have c: "\<forall>x \<in> set (records_of returned_late (u_id student_a)). returned x"
    by (simp add: returned_late_eq records_of_def loan_def)
  have d: "student_fines student_a 10 still_out = 15"
    by (simp add: still_out_eq)
       (simp add: student_fines_def fines_body_def fine_per_day_def records_of_def loan_def)
  show ?thesis
    using fines_count_unreturned_overdue_only
            [of "loan 1 student_a 0 7 None" 7 10 0 student_a returned_late]
          fines_count_unreturned_overdue_only
            [of "loan 1 student_a 0 7 (Some 10)" 7 10 0 student_a returned_late]
          a b c d
    by (simp add: fine_per_day_def)
qed

text \<open>
  The claim as first stated has the fine of a loan returned late, 15 in scenario C,
  in the user's fine total after the return. The loan borrowed on day 0, due on day 7
  and returned on day 10 leaves a total of 0 in the fines view and in the chatbot's
  answer.
\<close>

theorem returned_late_loan_counts_no_fine:
  "map (\<lambda>r. (borrow_date r, due_date r, return_date r, returned r))
       (borrow_records returned_late) = [(Some 0, Some 7, Some 10, True)]
   \<and> student_fines student_a 10 returned_late = 0
   \<and> student_fines student_a 10 returned_late \<noteq> 5 * (10 - 7)
   \<and> chatbot_check_fines (Some student_a) returned_late = Some 0"
  by (simp add: returned_late_eq)
     (simp add: student_fines_def fines_body_def chatbot_check_fines_def records_of_def
        loan_def)

section \<open>The stored fine\<close>

lemma update_record_fine_zero:
  assumes "\<forall>r \<in> set rs. fine r = 0" and "fine r' = 0"
  shows "\<forall>r \<in> set (update_record r' rs). fine r = 0"
  using assms by (auto simp: update_record_def)

lemma step_fine_zero:
  assumes "\<forall>r \<in> set (borrow_records s). fine r = 0"
  shows "\<forall>r \<in> set (borrow_records (snd (step q s))). fine r = 0"
proof (cases "fst (step q s) = Success")
  case False
  then show ?thesis using assms step_rejected [of q s] by simp
next
  case True
  then have st: "step q s = (Success, snd (step q s))" by (metis prod.collapse)
  note sc = step_success_cases [OF st]
  show ?thesis
  proof (cases q)
    case (StudentBorrow cu bk today)
    with sc obtain u where "student_borrow_book u bk today s = (Success, snd (step q s))"
      by auto
    from student_borrow_success [OF this] show ?thesis using assms by auto
  next
    case (TeacherBorrow cu bk now1 now2)
    with sc obtain u where "teacher_borrow_book u bk now1 now2 s = (Success, snd (step q s))"
      by auto
    from teacher_borrow_success [OF this] show ?thesis using assms by auto
  next
    case (StudentReturn cu rid today)
    with sc obtain u where "student_return_book u rid today s = (Success, snd (step q s))"
      by auto
    from student_return_success [OF this] obtain r where
      r: "get_record s rid = Some r"
         "borrow_records (snd (step q s)) =
            update_record (r\<lparr>returned := True, return_date := Some today\<rparr>) (borrow_records s)"
      by blast
    from r(1) have "r \<in> set (borrow_records s)" by (simp add: get_record_def find_in_set)
    with assms have "fine (r\<lparr>returned := True, return_date := Some today\<rparr>) = 0" by simp
    from update_record_fine_zero [OF assms this] show ?thesis by (simp add: r(2))
  next
    case (TeacherReturn cu rid now)
    with sc obtain u where "teacher_return_book u rid now s = (Success, snd (step q s))"
      by auto
    from teacher_return_success [OF this] obtain r where
      r: "get_record s rid = Some r"
         "borrow_records (snd (step q s)) =
            update_record (r\<lparr>returned := True, return_date := Some now\<rparr>) (borrow_records s)"
      by blast
    from r(1) have "r \<in> set (borrow_records s)" by (simp add: get_record_def find_in_set)
    with assms have "fine (r\<lparr>returned := True, return_date := Some now\<rparr>) = 0" by simp
    from update_record_fine_zero [OF assms this] show ?thesis by (simp add: r(2))
  next
    case (AdminAddBook cu inp ok)
    with sc have "admin_add_book inp ok s = (Success, snd (step q s))" by simp
    from admin_add_success [OF this] show ?thesis using assms by auto
  next
    case (AdminEditBook cu bk inp ok)
    with sc have "admin_edit_book bk inp ok s = (Success, snd (step q s))" by simp
    from admin_edit_success [OF this] show ?thesis using assms by auto
  next
    case (AdminDeleteBook cu bk ok)
    with sc have "admin_delete_book bk ok s = (Success, snd (step q s))" by simp
    from admin_delete_success [OF this] show ?thesis using assms by auto
  qed
qed

lemma run_fine_zero:
  "\<forall>r \<in> set (borrow_records s). fine r = 0 \<Longrightarrow>
   \<forall>r \<in> set (borrow_records (run qs s)). fine r = 0"
proof (induction qs arbitrary: s)
  case Nil
  then show ?case by simp
next
  case (Cons q qs)
  from step_fine_zero [OF Cons.prems]
  have "\<forall>r \<in> set (borrow_records (snd (step q s))). fine r = 0" .
  from Cons.IH [OF this] show ?case by simp
qed

lemma foldl_fine_zero:
  "\<forall>r \<in> set rs. fine r = 0 \<Longrightarrow>
   foldl (\<lambda>acc r. acc + (if fine r = 0 then 0 else fine r)) a rs = a"
  by (induction rs arbitrary: a) simp_all

text \<open>
  Claim C10, as amended. No request writes the column \<open>fine\<close>: a new loan gets the
  default 0 and a Return copies the value the row had. So from any database in which
  every stored fine is 0 (the empty database for one), every stored fine is 0 after
  any sequence of requests, and the fine total that the chatbot of
  blueprints/chatbot.py computes by summing the stored fines is 0, however overdue the
  user's loans are.
\<close>

theorem stored_fine_stays_zero:
  assumes "\<forall>r \<in> set (borrow_records s). fine r = 0"
  shows "(\<forall>r \<in> set (borrow_records (run qs s)). fine r = 0)
       \<and> chatbot_check_fines (Some u) (run qs s) = Some 0"
proof -
  have z: "\<forall>r \<in> set (borrow_records (run qs s)). fine r = 0"
    using assms by (rule run_fine_zero)
  then have zu: "\<forall>r \<in> set (records_of (run qs s) (u_id u)). fine r = 0"
    by (simp add: records_of_def)
  with z foldl_fine_zero [OF zu, of 0] show ?thesis
    by (simp add: chatbot_check_fines_def)
qed

text \<open>
  From the empty database: the admin adds the book, the student borrows it on day 0
  and keeps it. On day 100 the fines view of student.py counts 465, while the stored
  fine is 0 and the chatbot reports a total of 0.
\<close>

theorem stored_fine_stays_zero_witness:
  "map fine (borrow_records
     (run [AdminAddBook (Some the_admin) (new_book 1) True,
           StudentBorrow (Some student_a) 1 0] empty_db)) = [0]
   \<and> chatbot_check_fines (Some student_a)
     (run [AdminAddBook (Some the_admin) (new_book 1) True,
           StudentBorrow (Some student_a) 1 0] empty_db) = Some 0
   \<and> student_fines student_a 100
     (run [AdminAddBook (Some the_admin) (new_book 1) True,
           StudentBorrow (Some student_a) 1 0] empty_db) = 465"
proof -
  have h: "\<forall>r \<in> set (borrow_records empty_db). fine r = 0"
    by (simp add: empty_db_def)
  have e: "run [AdminAddBook (Some the_admin) (new_book 1) True,
             StudentBorrow (Some student_a) 1 0] empty_db = still_out"
    by (simp add: still_out_def catalog_def)
  have d: "student_fines student_a 100 still_out = 465"
    by (simp add: still_out_eq)
       (simp add: student_fines_def fines_body_def fine_per_day_def records_of_def loan_def)
  have l: "length (borrow_records still_out) = 1"
    by (simp add: still_out_eq)
  have z: "(\<forall>r \<in> set (borrow_records still_out). fine r = 0)
        \<and> chatbot_check_fines (Some student_a) still_out = Some 0"
    using stored_fine_stays_zero [OF h, of "[AdminAddBook (Some the_admin) (new_book 1) True,
           StudentBorrow (Some student_a) 1 0]" student_a]
    unfolding e .
  from z l have m: "map fine (borrow_records still_out) = [0]"
    by (cases "borrow_records still_out") simp_all
  show ?thesis unfolding e using z m d by simp
qed

text \<open>
  The claim as first stated counts the fines view and the chatbot of routes.py among
  the readers that report 0. On the application that routes.py builds they report
  nothing: with no login manager on it, each of the two requests ends in a server
  error, whatever the stored fines are.
\<close>

theorem routes_views_raise:
  "routes_fines (Some student_a) still_out = Inl ServerError
   \<and> routes_fines (Some student_a) still_out \<noteq> Inr []
   \<and> routes_chatbot_fines (Some student_a) still_out = Inl ServerError
   \<and> routes_chatbot_fines (Some student_a) still_out \<noteq> Inr (Some 0)"
  by (simp add: routes_fines_def routes_chatbot_fines_def routes_app_def)

section \<open>The teacher's Return on a loan that is already returned\<close>

text \<open>
  Claim C1 (every book keeps \<open>0 \<le> copies_available \<le> copies_total\<close>) does not hold of
  the teacher's \<open>return_book\<close>, which gives a copy back each time it is called. A
  teacher borrows the only copy of the book and returns the loan twice: the book ends
  with 2 copies available out of a total of 1.
\<close>

theorem teacher_double_return_exceeds_total:
  "map (\<lambda>b. (copies_total b, copies_available b)) (books (catalog 1)) = [(1, 1)]
   \<and> map (\<lambda>b. (copies_total b, copies_available b))
        (books (run [TeacherBorrow (Some teacher_a) 1 0 0,
                     TeacherReturn (Some teacher_a) 1 1,
                     TeacherReturn (Some teacher_a) 1 2] (catalog 1))) = [(1, 2)]"
  by (simp add: catalog_eq) (simp add: scenario_defs model_defs)

text \<open>
  Claim C2 (a Return on a returned loan is rejected with \<open>AlreadyReturned\<close> and changes
  nothing) does not hold of the teacher's \<open>return_book\<close>. The loan was returned on day
  1; the owner's second Return on day 2 succeeds, moves the return date to day 2 and
  raises the available count from 1 to 2.
\<close>

theorem teacher_second_return_accepted:
  "run [TeacherBorrow (Some teacher_a) 1 0 0, TeacherReturn (Some teacher_a) 1 1] (catalog 1) =
     \<lparr>books = [the_book 1 1], borrow_records = [loan 1 teacher_a 0 14 (Some 1)],
      next_book_id = 2, next_record_id = 2\<rparr>
   \<and> returned (loan 1 teacher_a 0 14 (Some 1))
   \<and> step (TeacherReturn (Some teacher_a) 1 2)
        \<lparr>books = [the_book 1 1], borrow_records = [loan 1 teacher_a 0 14 (Some 1)],
         next_book_id = 2, next_record_id = 2\<rparr> =
     (Success,
      \<lparr>books = [the_book 1 2], borrow_records = [loan 1 teacher_a 0 14 (Some 2)],
       next_book_id = 2, next_record_id = 2\<rparr>)"
  by (simp add: catalog_eq) (simp add: scenario_defs model_defs)

text \<open>
  Claim C3 (\<open>copies_available\<close> equals \<open>copies_total\<close> minus the number of unreturned
  loans on the book) does not hold of the teacher's \<open>return_book\<close>. Two teachers borrow
  the two copies and one of them returns the loan twice: 2 copies are available out of
  2 while one loan is still out.
\<close>

theorem teacher_double_return_breaks_conservation:
  "map (\<lambda>b. (copies_total b, copies_available b))
     (books (run [TeacherBorrow (Some teacher_a) 1 0 0, TeacherBorrow (Some teacher_b) 1 0 0,
                  TeacherReturn (Some teacher_a) 1 1, TeacherReturn (Some teacher_a) 1 2]
              (catalog 2))) = [(2, 2)]
   \<and> active_loans
       (run [TeacherBorrow (Some teacher_a) 1 0 0, TeacherBorrow (Some teacher_b) 1 0 0,
             TeacherReturn (Some teacher_a) 1 1, TeacherReturn (Some teacher_a) 1 2]
          (catalog 2)) 1 = 1"
  by (simp add: catalog_eq) (simp add: scenario_defs model_defs)

section \<open>Lending without the teacher's Return\<close>

text \<open>
  The student's \<open>return_book\<close> has the check that the teacher's lacks: the owner's
  Return on a returned loan is rejected and writes nothing.
\<close>

lemma student_return_already_returned:
  assumes "get_record s rid = Some r" and "user_id r = u_id cu" and "returned r"
  shows "student_return_book cu rid today s = (AlreadyReturned, s)"
  using assms by (simp add: student_return_book_def)

text \<open>
  With that check the counts stay right: from a consistent database, every sequence of
  Borrow requests of students and teachers and Return requests of students keeps, for
  every book, \<open>0 \<le> copies_available \<le> copies_total\<close> and \<open>copies_available\<close> equal to
  \<open>copies_total\<close> minus the number of unreturned loans on the book.
\<close>

lemma map_r_id_update_record: "map r_id (update_record r' rs) = map r_id rs"
  by (induction rs) (auto simp: update_record_def)

lemma update_record_Cons:
  "update_record r' (x # xs) = (if r_id x = r_id r' then r' else x) # update_record r' xs"
  by (simp add: update_record_def)

lemma update_record_other:
  "\<forall>y \<in> set xs. r_id y \<noteq> r_id r' \<Longrightarrow> update_record r' xs = xs"
  by (simp add: update_record_def map_idI)

lemma count_after_return:
  assumes "distinct (map r_id rs)" and "r \<in> set rs" and "\<not> returned r"
  shows "length (filter (\<lambda>x. book_id x = k \<and> \<not> returned x)
            (update_record (r\<lparr>returned := True, return_date := d\<rparr>) rs))
         + (if book_id r = k then 1 else 0)
       = length (filter (\<lambda>x. book_id x = k \<and> \<not> returned x) rs)"
  using assms
proof (induction rs)
  case Nil
  then show ?case by simp
next
  case (Cons x xs)
  show ?case
  proof (cases "x = r")
    case True
    with Cons.prems(1) have "r_id r \<notin> r_id ` set xs" by simp
    then have "\<forall>y \<in> set xs. r_id y \<noteq> r_id r" by (metis imageI)
    then have "update_record (r\<lparr>returned := True, return_date := d\<rparr>) xs = xs"
      by (simp add: update_record_other)
    with True Cons.prems(3) show ?thesis by (simp add: update_record_Cons)
  next
    case False
    with Cons.prems have r: "r \<in> set xs" and d: "distinct (map r_id xs)" by auto
    from Cons.prems(1) have "r_id x \<notin> r_id ` set xs" by simp
    with r have "r_id x \<noteq> r_id r" by (metis imageI)
    with Cons.IH [OF d r Cons.prems(3)] show ?thesis
      by (auto simp: update_record_Cons split: if_splits)
  qed
qed

lemma in_update_book:
  "b' \<in> set (update_book c bs) \<Longrightarrow>
   (b' = c \<and> (\<exists>b \<in> set bs. b_id b = b_id c)) \<or> (b' \<in> set bs \<and> b_id b' \<noteq> b_id c)"
  by (auto simp: update_book_def split: if_splits)

lemma borrow_keeps_consistent:
  assumes c: "consistent s"
    and b: "get_book s bk = Some b" "0 < copies_available b"
    and bs: "books s' = update_book (b\<lparr>copies_available := copies_available b - 1\<rparr>) (books s)"
    and rs: "borrow_records s' = borrow_records s @ [r]"
    and r: "r_id r = next_record_id s" "book_id r = bk" "\<not> returned r"
    and n: "next_record_id s' = Suc (next_record_id s)"
  shows "consistent s'"
proof -
  from c have d: "distinct (map r_id (borrow_records s))"
    and lt: "\<forall>x \<in> set (borrow_records s). r_id x < next_record_id s"
    and bal: "\<forall>x \<in> set (books s). 0 \<le> copies_available x
                \<and> copies_available x + int (active_loans s (b_id x)) = copies_total x"
    by (simp_all add: consistent_def)
  from b(1) have bin: "b \<in> set (books s)" and bid: "b_id b = bk"
    by (simp_all add: get_book_def find_in_set get_book_id [OF b(1)])
  have act: "active_loans s' k = active_loans s k + (if k = bk then 1 else 0)" for k
    using r by (auto simp: active_loans_def rs)
  have "next_record_id s \<notin> r_id ` set (borrow_records s)"
    using lt by auto
  then have d': "distinct (map r_id (borrow_records s'))"
    using d r by (simp add: rs)
  have lt': "\<forall>x \<in> set (borrow_records s'). r_id x < next_record_id s'"
    using lt r by (auto simp: rs n)
  have bal': "\<forall>x \<in> set (books s'). 0 \<le> copies_available x
                \<and> copies_available x + int (active_loans s' (b_id x)) = copies_total x"
  proof
    fix x assume "x \<in> set (books s')"
    then have "x \<in> set (update_book (b\<lparr>copies_available := copies_available b - 1\<rparr>) (books s))"
      by (simp add: bs)
    from in_update_book [OF this]
    show "0 \<le> copies_available x
            \<and> copies_available x + int (active_loans s' (b_id x)) = copies_total x"
    proof
      assume "x = b\<lparr>copies_available := copies_available b - 1\<rparr>
                \<and> (\<exists>y \<in> set (books s). b_id y = b_id (b\<lparr>copies_available := copies_available b - 1\<rparr>))"
      then have x: "x = b\<lparr>copies_available := copies_available b - 1\<rparr>" by simp
      from bal bin have "copies_available b + int (active_loans s bk) = copies_total b"
        using bid by auto
      with b(2) show ?thesis by (simp add: x act bid)
    next
      assume "x \<in> set (books s) \<and> b_id x \<noteq> b_id (b\<lparr>copies_available := copies_available b - 1\<rparr>)"
      then have "x \<in> set (books s)" "b_id x \<noteq> bk" using bid by simp_all
      with bal show ?thesis by (simp add: act)
    qed
  qed
  from d' lt' bal' show ?thesis by (simp add: consistent_def)
qed

lemma return_keeps_consistent:
  assumes c: "consistent s"
    and r: "get_record s rid = Some r" "\<not> returned r"
    and b: "get_book s (book_id r) = Some b"
    and bs: "books s' = update_book (b\<lparr>copies_available := copies_available b + 1\<rparr>) (books s)"
    and rs: "borrow_records s' =
               update_record (r\<lparr>returned := True, return_date := d\<rparr>) (borrow_records s)"
    and n: "next_record_id s' = next_record_id s"
  shows "consistent s'"
proof -
  from c have di: "distinct (map r_id (borrow_records s))"
    and lt: "\<forall>x \<in> set (borrow_records s). r_id x < next_record_id s"
    and bal: "\<forall>x \<in> set (books s). 0 \<le> copies_available x
                \<and> copies_available x + int (active_loans s (b_id x)) = copies_total x"
    by (simp_all add: consistent_def)
  from b have bin: "b \<in> set (books s)" and bid: "b_id b = book_id r"
    by (simp_all add: get_book_def find_in_set get_book_id [OF b])
  from r(1) have rin: "r \<in> set (borrow_records s)"
    by (simp add: get_record_def find_in_set)
  have act: "active_loans s' k + (if book_id r = k then 1 else 0) = active_loans s k" for k
    using count_after_return [OF di rin r(2), of k d] by (simp add: active_loans_def rs)
  have ids: "map r_id (borrow_records s') = map r_id (borrow_records s)"
    by (simp add: rs map_r_id_update_record)
  from ids di have d': "distinct (map r_id (borrow_records s'))" by simp
  have "\<forall>k \<in> set (map r_id (borrow_records s)). k < next_record_id s"
    using lt by simp
  then have "\<forall>k \<in> set (map r_id (borrow_records s')). k < next_record_id s'"
    by (simp only: ids n)
  then have lt': "\<forall>x \<in> set (borrow_records s'). r_id x < next_record_id s'"
    by simp
  have bal': "\<forall>x \<in> set (books s'). 0 \<le> copies_available x
                \<and> copies_available x + int (active_loans s' (b_id x)) = copies_total x"
  proof
    fix x assume "x \<in> set (books s')"
    then have "x \<in> set (update_book (b\<lparr>copies_available := copies_available b + 1\<rparr>) (books s))"
      by (simp add: bs)
    from in_update_book [OF this]
    show "0 \<le> copies_available x
            \<and> copies_available x + int (active_loans s' (b_id x)) = copies_total x"
    proof
      assume "x = b\<lparr>copies_available := copies_available b + 1\<rparr>
                \<and> (\<exists>y \<in> set (books s). b_id y = b_id (b\<lparr>copies_available := copies_available b + 1\<rparr>))"
      then have x: "x = b\<lparr>copies_available := copies_available b + 1\<rparr>" by simp
      from bal bin have "0 \<le> copies_available b"
        "copies_available b + int (active_loans s (book_id r)) = copies_total b"
        using bid by auto
      moreover from act [of "book_id r"]
      have "int (active_loans s (book_id r)) = int (active_loans s' (book_id r)) + 1" by simp
      ultimately show ?thesis by (simp add: x bid)
    next
      assume "x \<in> set (books s) \<and> b_id x \<noteq> b_id (b\<lparr>copies_available := copies_available b + 1\<rparr>)"
      then have "x \<in> set (books s)" "b_id x \<noteq> book_id r" using bid by simp_all
      with bal act [of "b_id x"] show ?thesis by auto
    qed
  qed
  from d' lt' bal' show ?thesis by (simp add: consistent_def)
qed

lemma step_keeps_consistent:
  assumes "consistent s" and "is_lending q" and "\<not> is_teacher_return q"
  shows "consistent (snd (step q s))"
proof (cases "fst (step q s) = Success")
  case False
  then show ?thesis using assms(1) step_rejected [of q s] by simp
next
  case True
  then have st: "step q s = (Success, snd (step q s))" by (metis prod.collapse)
  note sc = step_success_cases [OF st]
  show ?thesis
  proof (cases q)
    case (StudentBorrow cu bk today)
    with sc obtain u where "student_borrow_book u bk today s = (Success, snd (step q s))"
      by auto
    from student_borrow_success [OF this] obtain b r where
      "get_book s bk = Some b" "0 < copies_available b"
      "books (snd (step q s)) =
         update_book (b\<lparr>copies_available := copies_available b - 1\<rparr>) (books s)"
      "borrow_records (snd (step q s)) = borrow_records s @ [r]"
      "r_id r = next_record_id s" "book_id r = bk" "\<not> returned r"
      "next_record_id (snd (step q s)) = Suc (next_record_id s)"
      by auto
    then show ?thesis by (rule borrow_keeps_consistent [OF assms(1)])
  next
    case (TeacherBorrow cu bk now1 now2)
    with sc obtain u where "teacher_borrow_book u bk now1 now2 s = (Success, snd (step q s))"
      by auto
    from teacher_borrow_success [OF this] obtain b r where
      "get_book s bk = Some b" "0 < copies_available b"
      "books (snd (step q s)) =
         update_book (b\<lparr>copies_available := copies_available b - 1\<rparr>) (books s)"
      "borrow_records (snd (step q s)) = borrow_records s @ [r]"
      "r_id r = next_record_id s" "book_id r = bk" "\<not> returned r"
      "next_record_id (snd (step q s)) = Suc (next_record_id s)"
      by auto
    then show ?thesis by (rule borrow_keeps_consistent [OF assms(1)])
  next
    case (StudentReturn cu rid today)
    with sc obtain u where "student_return_book u rid today s = (Success, snd (step q s))"
      by auto
    from student_return_success [OF this] obtain r b where
      "get_record s rid = Some r" "\<not> returned r" "get_book s (book_id r) = Some b"
      "books (snd (step q s)) =
         update_book (b\<lparr>copies_available := copies_available b + 1\<rparr>) (books s)"
      "borrow_records (snd (step q s)) =
         update_record (r\<lparr>returned := True, return_date := Some today\<rparr>) (borrow_records s)"
      "next_record_id (snd (step q s)) = next_record_id s"
      by auto
    then show ?thesis by (rule return_keeps_consistent [OF assms(1)])
  next
    case (TeacherReturn cu rid now)
    with assms(3) show ?thesis by simp
  next
    case (AdminAddBook cu inp ok)
    with assms(2) show ?thesis by simp
  next
    case (AdminEditBook cu bk inp ok)
    with assms(2) show ?thesis by simp
  next
    case (AdminDeleteBook cu bk ok)
    with assms(2) show ?thesis by simp
  qed
qed

lemma run_keeps_consistent:
  "consistent s \<Longrightarrow> \<forall>q \<in> set qs. is_lending q \<and> \<not> is_teacher_return q \<Longrightarrow>
   consistent (run qs s)"
proof (induction qs arbitrary: s)
  case Nil
  then show ?case by simp
next
  case (Cons q qs)
  from Cons.prems have "consistent (snd (step q s))"
    by (simp add: step_keeps_consistent)
  with Cons.prems Cons.IH show ?case by simp
qed

text \<open>The catalog of the scenarios is consistent, and so is the empty database.\<close>

lemma catalog_consistent: "0 \<le> n \<Longrightarrow> consistent (catalog n)"
  by (simp add: catalog_eq consistent_def active_loans_def the_book_def)

lemma empty_db_consistent: "consistent empty_db"
  by (simp add: consistent_def empty_db_def)

lemma lending_without_teacher_return_conserves:
  assumes "consistent s" and "\<forall>q \<in> set qs. is_lending q \<and> \<not> is_teacher_return q"
  shows "\<forall>b \<in> set (books (run qs s)).
           0 \<le> copies_available b \<and> copies_available b \<le> copies_total b
           \<and> copies_available b = copies_total b - int (active_loans (run qs s) (b_id b))"
proof -
  from run_keeps_consistent [OF assms] have "consistent (run qs s)" .
  then have "\<forall>b \<in> set (books (run qs s)). 0 \<le> copies_available b
      \<and> copies_available b + int (active_loans (run qs s) (b_id b)) = copies_total b"
    by (simp add: consistent_def)
  then show ?thesis by fastforce
qed

end
